theory Spec2Isabelle
  imports Main "HOL-Library.Multiset"
begin

section \<open>JavaScript values and completions\<close>

text \<open>
  The handler factory of \<^verbatim>\<open>controller.generator.ts\<close> is written against values of
  type \<^verbatim>\<open>any\<close>: the controller's return value, the request facets, thrown errors.
  A value is a primitive, an array, a function (known by its identity), a promise (known
  by the way it will settle), or an object: the classes on its prototype chain, most
  derived first, and its own properties in enumeration order.
  Weights and status codes are integers, so \<open>Num\<close> carries an \<open>int\<close>.
\<close>

text \<open>
  A class is known by its identity, not by its name. \<open>HttpResponseClass\<close> is the class
  the generator imports from \<^verbatim>\<open>../models\<close>; any class the program does not name is a
  \<open>UserClass\<close>, also one that happens to be called \<^verbatim>\<open>HttpResponse\<close>.
\<close>

datatype cls =
    HttpResponseClass
  | PromiseClass
  | ObjectClass
  | ArrayClass
  | FunctionClass
  | ErrorClass
  | TypeErrorClass
  | RangeErrorClass
  | UserClass string

datatype 'v settlement = StaysPending | Fulfils 'v | Rejects 'v

datatype jsval =
    Undefined
  | Null
  | Bool bool
  | Num int
  | Str string
  | Arr "jsval list"
  | Fn string
  | PromiseObj "jsval settlement"
  | Obj "cls list" "(string \<times> jsval) list"

text \<open>A statement either completes with a value or throws one.\<close>

datatype 'a completion = Return 'a | Throw jsval

text \<open>\<^verbatim>\<open>null\<close> and \<^verbatim>\<open>undefined\<close> have no properties: reading one throws.\<close>

definition nullish :: "jsval \<Rightarrow> bool" where
  "nullish v = (case v of Undefined \<Rightarrow> True | Null \<Rightarrow> True | _ \<Rightarrow> False)"

text \<open>\<^verbatim>\<open>v.name\<close> on a value that is not nullish: a missing property reads as \<^verbatim>\<open>undefined\<close>.\<close>

fun get_prop :: "jsval \<Rightarrow> string \<Rightarrow> jsval" where
  "get_prop (Obj chain props) name =
     (case map_of props name of Some x \<Rightarrow> x | None \<Rightarrow> Undefined)"
| "get_prop _ name = Undefined"

text \<open>The classes on the prototype chain of a value; a primitive has none.\<close>

fun proto_chain :: "jsval \<Rightarrow> cls list" where
  "proto_chain (Obj chain props) = chain"
| "proto_chain (Arr xs) = [ArrayClass, ObjectClass]"
| "proto_chain (Fn f) = [FunctionClass, ObjectClass]"
| "proto_chain (PromiseObj s) = [PromiseClass, ObjectClass]"
| "proto_chain _ = []"

text \<open>
  \<^verbatim>\<open>v instanceof C\<close> walks the prototype chain of \<open>v\<close> and looks for the class \<open>C\<close>
  itself.
\<close>

definition instanceof :: "jsval \<Rightarrow> cls \<Rightarrow> bool" where
  "instanceof v c = (c \<in> set (proto_chain v))"

text \<open>The built-in errors; the texts of their messages are the engine's.\<close>

definition TypeError :: "string \<Rightarrow> jsval" where
  "TypeError msg = Obj [TypeErrorClass, ErrorClass, ObjectClass] [(''message'', Str msg)]"

definition RangeError :: "string \<Rightarrow> jsval" where
  "RangeError msg = Obj [RangeErrorClass, ErrorClass, ObjectClass] [(''message'', Str msg)]"

definition Error :: "string \<Rightarrow> jsval" where
  "Error msg = Obj [ErrorClass, ObjectClass] [(''message'', Str msg)]"


text \<open>An object literal \<^verbatim>\<open>{k1: v1, ...}\<close>.\<close>

definition plain_object :: "(string \<times> jsval) list \<Rightarrow> jsval" where
  "plain_object props = Obj [ObjectClass] props"


section \<open>\<^verbatim>\<open>Array.prototype.sort\<close> with a comparator\<close>

text \<open>
  ECMAScript requires the sort to be stable. For a comparator that is a difference of
  integer keys every stable sort returns the same array (lemma \<open>array_sort_unique\<close>
  below), so the insertion sort here stands for any conforming engine.
\<close>

fun place :: "('a \<Rightarrow> 'a \<Rightarrow> int) \<Rightarrow> 'a \<Rightarrow> 'a list \<Rightarrow> 'a list" where
  "place cmp x [] = [x]"
| "place cmp x (y # ys) = (if cmp x y \<le> 0 then x # y # ys else y # place cmp x ys)"

definition array_sort :: "('a \<Rightarrow> 'a \<Rightarrow> int) \<Rightarrow> 'a list \<Rightarrow> 'a list" where
  "array_sort cmp xs = foldr (place cmp) xs []"


section \<open>generateSortedParams\<close>

text \<open>
  \<^verbatim>\<open>IParamsMetaData\<close>: an object whose properties are argument positions. A property
  can be present with the value \<^verbatim>\<open>undefined\<close> (\<open>None\<close>). The list is the object's
  properties in the order \<^verbatim>\<open>Object.keys\<close> enumerates them.
\<close>

type_synonym paramsIndex = "(string \<times> int option) list"

definition object_keys :: "paramsIndex \<Rightarrow> string list" where
  "object_keys pidx = map fst pidx"

text \<open>\<^verbatim>\<open>paramsIndex[item]\<close>; \<open>None\<close> is \<^verbatim>\<open>undefined\<close>.\<close>

definition index_of :: "paramsIndex \<Rightarrow> string \<Rightarrow> int option" where
  "index_of pidx item = (case map_of pidx item of Some w \<Rightarrow> w | None \<Rightarrow> None)"

record entry =
  weight :: int
  val :: jsval
  key :: "string option"

text \<open>The five \<^verbatim>\<open>if\<close> statements that overwrite \<^verbatim>\<open>let value = null\<close>.\<close>

definition facet :: "string \<Rightarrow> jsval \<Rightarrow> jsval \<Rightarrow> jsval \<Rightarrow> jsval \<Rightarrow> jsval \<Rightarrow> jsval" where
  "facet k body params query file files =
     (let v = Null;
          v = (if k = ''bodyIndex'' then body else v);
          v = (if k = ''paramsIndex'' then params else v);
          v = (if k = ''queryIndex'' then query else v);
          v = (if k = ''fileIndex'' then file else v);
          v = (if k = ''filesIndex'' then files else v)
      in v)"

text \<open>
  The body of the \<^verbatim>\<open>forEach\<close>: push one entry for \<open>k\<close>. The keys that reach it have
  passed the filter, so \<^verbatim>\<open>paramsIndex[key]\<close> is a number there.
\<close>

definition push_param ::
  "paramsIndex \<Rightarrow> jsval \<Rightarrow> jsval \<Rightarrow> jsval \<Rightarrow> jsval \<Rightarrow> jsval \<Rightarrow> entry list \<Rightarrow> string \<Rightarrow> entry list" where
  "push_param pidx body params query file files sortedParams k =
     (case index_of pidx k of
        None \<Rightarrow> sortedParams
      | Some w \<Rightarrow>
          sortedParams @ [\<lparr>weight = w, val = facet k body params query file files, key = Some k\<rparr>])"

text \<open>
  \<^verbatim>\<open>Object.keys(paramsIndex).filter((item) => paramsIndex[item] !== undefined)\<close>:
  the bound keys, in enumeration order.
\<close>

definition bound_keys :: "paramsIndex \<Rightarrow> string list" where
  "bound_keys pidx = filter (\<lambda>item. index_of pidx item \<noteq> None) (object_keys pidx)"

text \<open>The array \<^verbatim>\<open>sortedParams\<close> before it is sorted.\<close>

definition collectedParams :: "jsval \<Rightarrow> jsval \<Rightarrow> jsval \<Rightarrow> paramsIndex \<Rightarrow> entry list" where
  "collectedParams req res next pidx =
     (let body = get_prop req ''body'';
          params = get_prop req ''params'';
          query = get_prop req ''query'';
          file = get_prop req ''file'';
          files = get_prop req ''files'';
          sortedParams =
            [\<lparr>weight = 100, val = req, key = None\<rparr>,
             \<lparr>weight = 101, val = res, key = None\<rparr>,
             \<lparr>weight = 102, val = next, key = None\<rparr>]
      in foldl (push_param pidx body params query file files) sortedParams
           (bound_keys pidx))"

text \<open>The array \<^verbatim>\<open>sortedParams\<close> after \<^verbatim>\<open>sort((a, b) => a.weight - b.weight)\<close>.\<close>

definition sortedEntries :: "jsval \<Rightarrow> jsval \<Rightarrow> jsval \<Rightarrow> paramsIndex \<Rightarrow> entry list" where
  "sortedEntries req res next pidx =
     array_sort (\<lambda>a b. weight a - weight b) (collectedParams req res next pidx)"

text \<open>
  Both \<^verbatim>\<open>req\<close> and \<^verbatim>\<open>paramsIndex\<close> are declared \<^verbatim>\<open>any\<close>. Destructuring a nullish
  \<^verbatim>\<open>req\<close> throws a TypeError, and so does \<^verbatim>\<open>Object.keys\<close> of a nullish
  \<^verbatim>\<open>paramsIndex\<close> (\<open>None\<close>). The texts of the messages are the engine's.
\<close>

definition generateSortedParams ::
  "jsval \<Rightarrow> jsval \<Rightarrow> jsval \<Rightarrow> paramsIndex option \<Rightarrow> jsval list completion" where
  "generateSortedParams req res next paramsIndex =
     (if nullish req then Throw (TypeError ''Cannot destructure property of req'')
      else case paramsIndex of
             None \<Rightarrow> Throw (TypeError ''Cannot convert undefined or null to object'')
           | Some pidx \<Rightarrow> Return (map val (sortedEntries req res next pidx)))"


section \<open>generateRequestHandler\<close>

text \<open>
  The controller function, the response object and the next-callback are supplied from
  outside. The model records every call the handler makes to them, in order:
  \<^verbatim>\<open>controllerFunction(...args)\<close>, \<^verbatim>\<open>res.status(code)\<close>, \<^verbatim>\<open>.json(body)\<close> and
  \<^verbatim>\<open>next(err)\<close>. A controller function either returns a value or throws one.
\<close>

datatype call = Invoke "jsval list" | ResStatus jsval | ResJson jsval | NextCall jsval

type_synonym controllerFunction = "jsval list \<Rightarrow> jsval completion"

text \<open>
  The response object is the framework's (Express 4 on Node). \<^verbatim>\<open>res.status(code)\<close> stores
  the code and returns the response; \<^verbatim>\<open>.json(body)\<close> serialises the body and writes the
  head, and there Node takes the stored code as a 32-bit integer (\<^verbatim>\<open>statusCode |= 0\<close>)
  and throws a RangeError unless it lies in 100..999. No value of \<open>jsval\<close> makes the
  serialisation throw. HttpResponse declares its status a number; a status that is not a
  number is outside that type, and the model has the write reject it.
\<close>

definition to_int32 :: "int \<Rightarrow> int" where
  "to_int32 n = (n + 2147483648) mod 4294967296 - 2147483648"

definition accepted_status :: "jsval \<Rightarrow> bool" where
  "accepted_status st =
     (case st of Num n \<Rightarrow> 100 \<le> to_int32 n \<and> to_int32 n \<le> 999 | _ \<Rightarrow> False)"

text \<open>
  \<^verbatim>\<open>res.status(st).json(body)\<close>: the two calls, and the response itself or the error the
  write throws.
\<close>

definition status_json :: "jsval \<Rightarrow> jsval \<Rightarrow> jsval \<Rightarrow> call list \<times> jsval completion" where
  "status_json res st body =
     ([ResStatus st, ResJson body],
      if accepted_status st then Return res else Throw (RangeError ''Invalid status code''))"

text \<open>
  The statements inside \<^verbatim>\<open>try\<close>: the calls they make, and the value they return or the
  error that leaves them.
\<close>

definition try_block ::
  "controllerFunction \<Rightarrow> paramsIndex option \<Rightarrow> jsval \<Rightarrow> jsval \<Rightarrow> jsval
     \<Rightarrow> call list \<times> jsval completion" where
  "try_block controllerFunction paramsIndex req res next =
     (case generateSortedParams req res next paramsIndex of
        Throw err \<Rightarrow> ([], Throw err)
      | Return sortedParams \<Rightarrow>
          (case controllerFunction sortedParams of
             Throw err \<Rightarrow> ([Invoke sortedParams], Throw err)
           | Return controllerValue \<Rightarrow>
               (let (calls, r) =
                      (if instanceof controllerValue HttpResponseClass
                       then status_json res (get_prop controllerValue ''status'')
                              (get_prop controllerValue ''json'')
                       else status_json res (Num 200) controllerValue)
                in (Invoke sortedParams # calls, r))))"

text \<open>
  The handler: whatever is thrown inside \<^verbatim>\<open>try\<close> is passed to \<^verbatim>\<open>next\<close> by the
  \<^verbatim>\<open>catch\<close> block, after which the handler returns \<^verbatim>\<open>undefined\<close>.
\<close>

definition generateRequestHandler ::
  "controllerFunction \<Rightarrow> paramsIndex option \<Rightarrow> jsval \<Rightarrow> jsval \<Rightarrow> jsval
     \<Rightarrow> call list \<times> jsval completion" where
  "generateRequestHandler controllerFunction paramsIndex req res next =
     (case try_block controllerFunction paramsIndex req res next of
        (calls, Return x) \<Rightarrow> (calls, Return x)
      | (calls, Throw err) \<Rightarrow> (calls @ [NextCall err], Return Undefined))"


section \<open>Routers\<close>

text \<open>
  The router of the web framework is a stack of layers. \<^verbatim>\<open>router.use(fn, ...)\<close> pushes
  one layer per function, at the path \<^verbatim>\<open>/\<close> when none is given;
  \<^verbatim>\<open>router.use(path, sub)\<close> mounts a router under a path; \<^verbatim>\<open>router.get(path, ...)\<close>
  and its siblings push one route with its chain of handlers, and an array among the
  arguments stands for its elements.
\<close>

text \<open>
  Modelled from the spec: the HTTP verb of a MethodMetadata entry (the interface
  declaration is not among the sources); each names a registration method of the router.
\<close>

datatype verb = Get | Post | Put | Patch | Delete | Head | Options | All

text \<open>
  Modelled from the spec: the collaborators of \<^verbatim>\<open>../middlewares\<close>, which are not among
  the sources. \<^verbatim>\<open>generateValidationMiddleware(schema, options)\<close> is known by its two
  arguments, \<^verbatim>\<open>defaultValidationErrorHandler\<close> and \<^verbatim>\<open>defaultHttpErrorMiddleware\<close> by their
  names. A layer can also hold a function that came with the metadata (known by its
  identity), a generated request handler (the function itself), or a router.
\<close>

datatype handler =
    UserFn string
  | ValidationMiddleware jsval jsval
  | RequestHandler "jsval \<Rightarrow> jsval \<Rightarrow> jsval \<Rightarrow> call list \<times> jsval completion"
  | DefaultValidationErrorHandler
  | DefaultHttpErrorMiddleware
  | SubRouter router
and router = Router "layer list"
and layer =
    UseLayer string handler
  | RouteLayer verb string "handler list"

primrec stack :: "router \<Rightarrow> layer list" where
  "stack (Router ls) = ls"

text \<open>An argument of a registration call: one handler, or an array of handlers.\<close>

datatype handler_arg = Single handler | Array "handler list"

fun flatten_args :: "handler_arg list \<Rightarrow> handler list" where
  "flatten_args [] = []"
| "flatten_args (Single h # as) = h # flatten_args as"
| "flatten_args (Array hs # as) = hs @ flatten_args as"

text \<open>
  \<^verbatim>\<open>router.use\<close> is only called with at least one function: the source guards the two
  calls that spread an array with a test of its length.
\<close>

definition router_use :: "string \<Rightarrow> handler list \<Rightarrow> router \<Rightarrow> router" where
  "router_use p hs r = Router (stack r @ map (UseLayer p) hs)"

definition router_verb :: "verb \<Rightarrow> string \<Rightarrow> handler_arg list \<Rightarrow> router \<Rightarrow> router" where
  "router_verb m p as r = Router (stack r @ [RouteLayer m p (flatten_args as)])"


section \<open>Metadata\<close>

text \<open>
  Modelled from the spec: ClassMetadata and MethodMetadata, whose interfaces are not among
  the sources. The fields are the ones the generator reads; the three that a class and a
  method have in common are declared once.
\<close>

record validationSpec =
  schema :: jsval
  options :: jsval

record commonMetadata =
  middlewares :: "handler list"
  errorMiddlewares :: "handler list"
  validation :: "validationSpec option"

record classMetadata = commonMetadata +
  baseUrl :: string

record methodMetadata = commonMetadata +
  methodName :: string
  httpMethod :: verb
  path :: string
  paramsMetadata :: paramsIndex

text \<open>
  A controller instance: its members by name (\<^verbatim>\<open>controller[funcName]\<close>; the handler
  factory takes a \<^verbatim>\<open>Function\<close>), and what the metadata store holds for it.
\<close>

record controller =
  members :: "string \<Rightarrow> controllerFunction"
  classData :: classMetadata
  funcData :: "methodMetadata list"

text \<open>
  Modelled from the spec: \<^verbatim>\<open>getClassMetadata\<close> of \<^verbatim>\<open>../decorators/meta-helpers\<close>, a
  read of the registry of the metadata the decorators attached to the controller's class.
\<close>

definition getClassMetadata :: "controller \<Rightarrow> classMetadata" where
  "getClassMetadata c = classData c"

text \<open>
  Modelled from the spec: \<^verbatim>\<open>getMethodMetadata\<close> of \<^verbatim>\<open>../decorators/meta-helpers\<close>, the
  ordered sequence of entries, one per decorated method.
\<close>

definition getMethodMetadata :: "controller \<Rightarrow> methodMetadata list" where
  "getMethodMetadata c = funcData c"


section \<open>generateRouter\<close>

text \<open>The body of \<^verbatim>\<open>funcData.forEach\<close>: register the route of one entry.\<close>

definition register_entry :: "controller \<Rightarrow> router \<Rightarrow> methodMetadata \<Rightarrow> router" where
  "register_entry c r item =
     (let funcName = methodName item;
          validMiddlewares = [];
          validMiddlewares =
            (case validation item of
               Some v \<Rightarrow> validMiddlewares @ [ValidationMiddleware (schema v) (options v)]
             | None \<Rightarrow> validMiddlewares)
      in router_verb (httpMethod item) (path item)
           (map Single validMiddlewares
            @ [Array (middlewares item),
               Single (RequestHandler
                        (generateRequestHandler (members c funcName) (Some (paramsMetadata item)))),
               Array (errorMiddlewares item)])
           r)"

text \<open>
  The first part of \<^verbatim>\<open>generateRouter\<close>: the router \<^verbatim>\<open>router\<close> it fills, as it stands
  before \<^verbatim>\<open>finalRouter\<close> is created.
\<close>

definition innerRouter :: "controller \<Rightarrow> router" where
  "innerRouter c =
     (let r = Router [];
          funcData = getMethodMetadata c;
          classData = getClassMetadata c;
          r = (case validation classData of
                 Some v \<Rightarrow> router_use ''/'' [ValidationMiddleware (schema v) (options v)] r
               | None \<Rightarrow> r);
          r = (if length (middlewares classData) \<noteq> 0
               then router_use ''/'' (middlewares classData) r else r);
          r = foldl (register_entry c) r funcData;
          r = (if length (errorMiddlewares classData) \<noteq> 0
               then router_use ''/'' (errorMiddlewares classData) r else r)
      in r)"

text \<open>The rest of it: the filled router is mounted at the base path in a new router.\<close>

definition generateRouter :: "controller \<Rightarrow> router" where
  "generateRouter c =
     (let r = innerRouter c;
          classData = getClassMetadata c;
          finalRouter = Router [];
          finalRouter = router_use (baseUrl classData) [SubRouter r] finalRouter
      in finalRouter)"


section \<open>combineControllers\<close>

record combineOptions =
  skipDefaultHttpErrorMiddleware :: "bool option"
  skipDefaultValidationErrorMiddleware :: "bool option"

text \<open>The truth value of an optional boolean property: \<^verbatim>\<open>undefined\<close> is falsy.\<close>

fun truthy :: "bool option \<Rightarrow> bool" where
  "truthy None = False"
| "truthy (Some b) = b"

text \<open>
  The result is the router together with the lines written to the console.
  The guard \<^verbatim>\<open>!options || (options && !options.flag)\<close> is a case on whether the
  options object was passed.
\<close>

definition combineControllers ::
  "controller list \<Rightarrow> combineOptions option \<Rightarrow> router \<times> string list" where
  "combineControllers controllers opts =
     (let r = Router [];
          out = [];
          r = foldl (\<lambda>r item. router_use ''/'' [SubRouter (generateRouter item)] r) r controllers;
          (r, out) =
            (if (case opts of None \<Rightarrow> True
                 | Some x \<Rightarrow> \<not> truthy (skipDefaultValidationErrorMiddleware x))
             then (router_use ''/'' [DefaultValidationErrorHandler] r,
                   out @ [''Setting default validation error middleware''])
             else (r, out));
          (r, out) =
            (if (case opts of None \<Rightarrow> True
                 | Some x \<Rightarrow> \<not> truthy (skipDefaultHttpErrorMiddleware x))
             then (router_use ''/'' [DefaultHttpErrorMiddleware] r,
                   out @ [''Setting default http error middleware''])
             else (r, out))
      in (r, out))"

text \<open>
  Every route of a router, with the mount paths that lead to it, outermost first.
\<close>

primrec routes_handler :: "handler \<Rightarrow> string list \<Rightarrow> (string list \<times> verb \<times> string) list"
  and routes_router :: "router \<Rightarrow> string list \<Rightarrow> (string list \<times> verb \<times> string) list"
  and routes_layer :: "layer \<Rightarrow> string list \<Rightarrow> (string list \<times> verb \<times> string) list" where
  "routes_handler (UserFn f) pre = []"
| "routes_handler (ValidationMiddleware s opt) pre = []"
| "routes_handler (RequestHandler h) pre = []"
| "routes_handler DefaultValidationErrorHandler pre = []"
| "routes_handler DefaultHttpErrorMiddleware pre = []"
| "routes_handler (SubRouter r) pre = routes_router r pre"
| "routes_router (Router ls) pre = concat (map (\<lambda>l. routes_layer l pre) ls)"
| "routes_layer (UseLayer p h) pre = routes_handler h (pre @ [p])"
| "routes_layer (RouteLayer m p hs) pre = [(pre, m, p)]"


section \<open>Observations used by the statements\<close>

text \<open>The weights of the bound keys, in enumeration order.\<close>

definition bound_weights :: "paramsIndex \<Rightarrow> int list" where
  "bound_weights pidx = List.map_filter (index_of pidx) (object_keys pidx)"

text \<open>The entry a bound key contributes, none for a key that is not bound.\<close>

definition bound_entry :: "paramsIndex \<Rightarrow> jsval \<Rightarrow> string \<Rightarrow> entry list" where
  "bound_entry pidx req k =
     (case index_of pidx k of
        None \<Rightarrow> []
      | Some w \<Rightarrow>
          [\<lparr>weight = w,
            val = facet k (get_prop req ''body'') (get_prop req ''params'')
                    (get_prop req ''query'') (get_prop req ''file'') (get_prop req ''files''),
            key = Some k\<rparr>])"

text \<open>The errors passed to the next-callback, and the calls that write the response.\<close>

fun next_calls :: "call list \<Rightarrow> jsval list" where
  "next_calls [] = []"
| "next_calls (NextCall e # cs) = e # next_calls cs"
| "next_calls (c # cs) = next_calls cs"

fun response_writes :: "call list \<Rightarrow> call list" where
  "response_writes [] = []"
| "response_writes (ResStatus x # cs) = ResStatus x # response_writes cs"
| "response_writes (ResJson x # cs) = ResJson x # response_writes cs"
| "response_writes (c # cs) = response_writes cs"

fun invocations :: "call list \<Rightarrow> jsval list list" where
  "invocations [] = []"
| "invocations (Invoke args # cs) = args # invocations cs"
| "invocations (c # cs) = invocations cs"

fun is_route :: "layer \<Rightarrow> bool" where
  "is_route (RouteLayer m p hs) = True"
| "is_route (UseLayer p h) = False"


definition weight_val :: "entry \<Rightarrow> int \<times> jsval" where
  "weight_val e = (weight e, val e)"

text \<open>
  The chain the spec gives for the route of one entry: the validation middleware when the
  entry declares one, the entry's middlewares, the generated request handler, the entry's
  error middlewares.
\<close>

definition entry_chain :: "controller \<Rightarrow> methodMetadata \<Rightarrow> handler list" where
  "entry_chain c item =
     (case validation item of
        None \<Rightarrow> []
      | Some v \<Rightarrow> [ValidationMiddleware (schema v) (options v)])
     @ middlewares item
     @ [RequestHandler
          (generateRequestHandler (members c (methodName item)) (Some (paramsMetadata item)))]
     @ errorMiddlewares item"

text \<open>An option of \<^verbatim>\<open>combineControllers\<close> is set to \<^verbatim>\<open>true\<close>.\<close>

definition flag_true :: "combineOptions option \<Rightarrow> (combineOptions \<Rightarrow> bool option) \<Rightarrow> bool" where
  "flag_true opts flag = (case opts of None \<Rightarrow> False | Some x \<Rightarrow> flag x = Some True)"


section \<open>Example inputs\<close>

definition req0 :: jsval where
  "req0 = Obj [UserClass ''IncomingMessage'', ObjectClass]
            [(''body'', plain_object [(''name'', Str ''n'')]),
             (''params'', plain_object [(''id'', Str ''7'')]),
             (''query'', plain_object [])]"

definition pidx_ties :: paramsIndex where
  "pidx_ties = [(''queryIndex'', Some 101), (''bodyIndex'', Some 100)]"

definition pidx0 :: paramsIndex where
  "pidx0 = [(''bodyIndex'', Some 0), (''queryIndex'', None), (''paramsIndex'', Some 1)]"

definition list_item :: methodMetadata where
  "list_item =
     \<lparr>middlewares = [UserFn ''auth''], errorMiddlewares = [UserFn ''onError''],
      validation = None,
      methodName = ''list'', httpMethod = Get, path = ''/'', paramsMetadata = []\<rparr>"

definition create_item :: methodMetadata where
  "create_item =
     \<lparr>middlewares = [], errorMiddlewares = [],
      validation = Some \<lparr>schema = Str ''UserSchema'', options = Undefined\<rparr>,
      methodName = ''create'', httpMethod = Post, path = ''/new'',
      paramsMetadata = [(''bodyIndex'', Some 0)]\<rparr>"

definition users :: controller where
  "users =
     \<lparr>members = (\<lambda>name args. Return (Arr args)),
      classData =
        \<lparr>middlewares = [UserFn ''log''], errorMiddlewares = [UserFn ''classError''],
         validation = Some \<lparr>schema = Str ''ClassSchema'', options = Undefined\<rparr>,
         baseUrl = ''/users''\<rparr>,
      funcData = [list_item, create_item]\<rparr>"


section \<open>The sort\<close>

lemma place_insort_key: "place (\<lambda>a b. f a - f b) x ys = insort_key (f :: 'a \<Rightarrow> int) x ys"
  by (induction ys) auto

lemma array_sort_sort_key: "array_sort (\<lambda>a b. f a - f b) xs = sort_key (f :: 'a \<Rightarrow> int) xs"
  by (induction xs) (auto simp: array_sort_def place_insort_key)

text \<open>
  Whatever algorithm an engine runs, a sorted and stable rearrangement of the array is
  the array computed here.
\<close>

lemma array_sort_unique:
  fixes f :: "'a \<Rightarrow> int"
  assumes "mset ys = mset xs" and "sorted (map f ys)"
    and "\<And>k. filter (\<lambda>x. f x = k) ys = filter (\<lambda>x. f x = k) xs"
  shows "ys = array_sort (\<lambda>a b. f a - f b) xs"
proof -
  have "sort_key f xs = ys"
  proof (rule properties_for_sort_key)
    show "mset ys = mset xs" by fact
    show "sorted (map f ys)" by fact
    fix k assume "k \<in> set ys"
    have "filter (\<lambda>x. f x = f k) ys = filter (\<lambda>x. f x = f k) xs" by (rule assms(3))
    then show "filter (\<lambda>x. f k = f x) ys = filter (\<lambda>x. f k = f x) xs"
      by (simp add: eq_commute[of "f k"])
  qed
  then show ?thesis by (simp add: array_sort_sort_key)
qed

text \<open>
  Keeping, for every key, the elements of that key as they stood keeps every element;
  so an ascending list that does is the sorted list.
\<close>

lemma filter_eq_narrow:
  "filter ((=) x) (filter (\<lambda>e. f e = f x) zs) = filter ((=) x) zs"
proof -
  have "filter ((=) x) (filter (\<lambda>e. f e = f x) zs) = filter (\<lambda>y. f y = f x \<and> x = y) zs"
    by (simp only: filter_filter)
  also have "\<dots> = filter ((=) x) zs"
    by (rule filter_cong) auto
  finally show ?thesis .
qed

lemma mset_from_filters:
  assumes "\<And>w. filter (\<lambda>e. f e = w) ys = filter (\<lambda>e. f e = w) xs"
  shows "mset ys = mset xs"
proof (rule multiset_eqI)
  fix x
  have "filter ((=) x) ys = filter ((=) x) (filter (\<lambda>e. f e = f x) ys)"
    by (rule filter_eq_narrow [symmetric])
  also have "\<dots> = filter ((=) x) (filter (\<lambda>e. f e = f x) xs)"
    by (simp only: assms)
  also have "\<dots> = filter ((=) x) xs"
    by (rule filter_eq_narrow)
  finally have "length (filter ((=) x) ys) = length (filter ((=) x) xs)"
    by (rule arg_cong)
  then show "count (mset ys) x = count (mset xs) x"
    by (simp only: count_mset count_list_eq_length_filter)
qed

lemma stable_sorted_is_sort_key:
  fixes f :: "'a \<Rightarrow> int"
  assumes "sorted (map f ys)"
    and "\<And>w. filter (\<lambda>e. f e = w) ys = filter (\<lambda>e. f e = w) xs"
  shows "sort_key f xs = ys"
proof (rule properties_for_sort_key)
  show "mset ys = mset xs"
    by (rule mset_from_filters) (rule assms(2))
  show "sorted (map f ys)" by fact
  fix k assume "k \<in> set ys"
  have "filter (\<lambda>x. f x = f k) ys = filter (\<lambda>x. f x = f k) xs" by (rule assms(2))
  then show "filter (\<lambda>x. f k = f x) ys = filter (\<lambda>x. f k = f x) xs"
    by (simp add: eq_commute[of "f k"])
qed

lemma sortedEntries_sort_key:
  "sortedEntries req res next pidx = sort_key weight (collectedParams req res next pidx)"
  by (simp add: sortedEntries_def array_sort_sort_key)


section \<open>The collected entries\<close>

lemma foldl_push_param:
  "foldl (push_param pidx (get_prop req ''body'') (get_prop req ''params'')
            (get_prop req ''query'') (get_prop req ''file'') (get_prop req ''files'')) acc ks
   = acc @ concat (map (bound_entry pidx req) ks)"
  by (induction ks arbitrary: acc) (auto simp: push_param_def bound_entry_def split: option.splits)

lemma collectedParams_eq:
  "collectedParams req res next pidx =
     [\<lparr>weight = 100, val = req, key = None\<rparr>,
      \<lparr>weight = 101, val = res, key = None\<rparr>,
      \<lparr>weight = 102, val = next, key = None\<rparr>]
     @ concat (map (bound_entry pidx req) (bound_keys pidx))"
  by (simp add: collectedParams_def Let_def foldl_push_param)

lemma facet_nested:
  "facet k b p q f fs =
     (if k = ''bodyIndex'' then b
      else if k = ''paramsIndex'' then p
      else if k = ''queryIndex'' then q
      else if k = ''fileIndex'' then f
      else if k = ''filesIndex'' then fs
      else Null)"
  by (simp add: facet_def)

lemma concat_bound_keys:
  assumes "\<And>k. index_of pidx k = None \<Longrightarrow> g k = []"
  shows "concat (map g (filter (\<lambda>k. index_of pidx k \<noteq> None) ks)) = concat (map g ks)"
  using assms by (induction ks) auto

text \<open>The collected entries, written from the input alone.\<close>

lemma collectedParams_inserted:
  "collectedParams req res next pidx =
     [\<lparr>weight = 100, val = req, key = None\<rparr>,
      \<lparr>weight = 101, val = res, key = None\<rparr>,
      \<lparr>weight = 102, val = next, key = None\<rparr>]
     @ concat (map (\<lambda>k. case index_of pidx k of
                      None \<Rightarrow> []
                    | Some b \<Rightarrow>
                        [\<lparr>weight = b,
                          val = (if k = ''bodyIndex'' then get_prop req ''body''
                                 else if k = ''paramsIndex'' then get_prop req ''params''
                                 else if k = ''queryIndex'' then get_prop req ''query''
                                 else if k = ''fileIndex'' then get_prop req ''file''
                                 else if k = ''filesIndex'' then get_prop req ''files''
                                 else Null),
                          key = Some k\<rparr>])
               (map fst pidx))"
proof -
  have e: "bound_entry pidx req =
             (\<lambda>k. case index_of pidx k of
                      None \<Rightarrow> []
                    | Some b \<Rightarrow>
                        [\<lparr>weight = b,
                          val = (if k = ''bodyIndex'' then get_prop req ''body''
                                 else if k = ''paramsIndex'' then get_prop req ''params''
                                 else if k = ''queryIndex'' then get_prop req ''query''
                                 else if k = ''fileIndex'' then get_prop req ''file''
                                 else if k = ''filesIndex'' then get_prop req ''files''
                                 else Null),
                          key = Some k\<rparr>])"
    by (rule ext) (simp only: bound_entry_def facet_nested)
  have "concat (map (bound_entry pidx req) (bound_keys pidx))
          = concat (map (bound_entry pidx req) (map fst pidx))"
    unfolding bound_keys_def object_keys_def
    by (rule concat_bound_keys) (simp add: bound_entry_def)
  then show ?thesis
    by (simp only: collectedParams_eq e)
qed

lemma weights_bound_entries:
  "map weight (concat (map (bound_entry pidx req) (bound_keys pidx))) = bound_weights pidx"
proof -
  have "map weight (concat (map (bound_entry pidx req) ks)) = List.map_filter (index_of pidx) ks"
    for ks
    by (induction ks) (auto simp: bound_entry_def List.map_filter_simps split: option.splits)
  moreover have "List.map_filter (index_of pidx) (bound_keys pidx)
                   = List.map_filter (index_of pidx) (object_keys pidx)"
    by (simp add: bound_keys_def List.map_filter_def)
  ultimately show ?thesis by (simp add: bound_weights_def)
qed

lemma length_bound_entries:
  "length (concat (map (bound_entry pidx req) (bound_keys pidx))) = length (bound_keys pidx)"
proof -
  have "length (bound_weights pidx) = length (bound_keys pidx)"
    by (simp add: bound_weights_def bound_keys_def List.map_filter_def)
  then show ?thesis
    by (metis weights_bound_entries length_map)
qed

lemma keys_bound_entries:
  "map key (concat (map (bound_entry pidx req) (bound_keys pidx))) = map Some (bound_keys pidx)"
proof -
  have "map key (concat (map (bound_entry pidx req) ks))
          = map Some (filter (\<lambda>k. index_of pidx k \<noteq> None) ks)" for ks
    by (induction ks) (auto simp: bound_entry_def)
  from this [of "bound_keys pidx"] show ?thesis
    by (simp add: bound_keys_def)
qed

lemma index_of_bound: "index_of pidx k = Some w \<Longrightarrow> k \<in> set (bound_keys pidx)"
  by (auto simp: index_of_def bound_keys_def object_keys_def split: option.splits
      dest: map_of_SomeD intro: rev_image_eqI)

lemma set_bound_entries:
  "set (concat (map (bound_entry pidx req) (bound_keys pidx)))
   = {\<lparr>weight = w,
        val = facet k (get_prop req ''body'') (get_prop req ''params'')
                (get_prop req ''query'') (get_prop req ''file'') (get_prop req ''files''),
        key = Some k\<rparr> | k w. index_of pidx k = Some w}"
  by (auto simp: bound_entry_def index_of_bound split: option.splits)

lemma bound_pair_mem:
  assumes "index_of pidx k = Some w"
  shows "(w, facet k (get_prop req ''body'') (get_prop req ''params'')
               (get_prop req ''query'') (get_prop req ''file'') (get_prop req ''files''))
         \<in> weight_val ` set (concat (map (bound_entry pidx req) (bound_keys pidx)))"
proof -
  let ?e = "\<lparr>weight = w,
        val = facet k (get_prop req ''body'') (get_prop req ''params'')
                (get_prop req ''query'') (get_prop req ''file'') (get_prop req ''files''),
        key = Some k\<rparr>"
  have "?e \<in> set (concat (map (bound_entry pidx req) (bound_keys pidx)))"
    unfolding set_bound_entries using assms by blast
  then have "weight_val ?e \<in> weight_val ` set (concat (map (bound_entry pidx req) (bound_keys pidx)))"
    by (rule imageI)
  then show ?thesis by (simp add: weight_val_def)
qed

lemma bound_pair_elim:
  assumes "x \<in> weight_val ` set (concat (map (bound_entry pidx req) (bound_keys pidx)))"
  obtains k w where "index_of pidx k = Some w"
    and "x = (w, facet k (get_prop req ''body'') (get_prop req ''params'')
               (get_prop req ''query'') (get_prop req ''file'') (get_prop req ''files''))"
  using assms unfolding set_bound_entries by (auto simp: weight_val_def)

lemma facet_fixed:
  "facet ''bodyIndex'' b p q f fs = b"
  "facet ''paramsIndex'' b p q f fs = p"
  "facet ''queryIndex'' b p q f fs = q"
  "facet ''fileIndex'' b p q f fs = f"
  "facet ''filesIndex'' b p q f fs = fs"
  by (simp_all add: facet_def)


section \<open>Instances, plain objects and the response write\<close>



lemma not_instanceof_plain: "\<not> instanceof (plain_object props) HttpResponseClass"
  by (simp add: instanceof_def plain_object_def)

text \<open>A number in 100..999 is its own 32-bit value, so the write accepts it.\<close>

lemma accepted_status_range: "100 \<le> n \<Longrightarrow> n \<le> 999 \<Longrightarrow> accepted_status (Num n)"
  by (simp add: accepted_status_def to_int32_def)

lemma accepted_status_200: "accepted_status (Num 200)"
  by (simp add: accepted_status_range)


lemmas handler_unfold = generateRequestHandler_def try_block_def status_json_def

lemma invocations_handler:
  assumes "generateSortedParams req res next pidx = Return args"
  shows "invocations (fst (generateRequestHandler f pidx req res next)) = [args]"
  using assms by (cases "f args") (simp_all add: handler_unfold)

lemma args_req0:
  "generateSortedParams req0 (Fn ''res'') (Fn ''next'') (Some [])
     = Return [req0, Fn ''res'', Fn ''next'']"
  by (simp add: generateSortedParams_def nullish_def req0_def sortedEntries_def
      collectedParams_def bound_keys_def object_keys_def array_sort_def)

text \<open>
  An instance of another class that is also called \<^verbatim>\<open>HttpResponse\<close> is not unwrapped.
\<close>

lemma example_same_name_class:
  "fst (generateRequestHandler
          (\<lambda>args. Return (Obj [UserClass ''HttpResponse'', ObjectClass]
                            [(''status'', Num 201), (''json'', Str ''x'')]))
          (Some []) req0 (Fn ''res'') (Fn ''next''))
     = [Invoke [req0, Fn ''res'', Fn ''next''], ResStatus (Num 200),
        ResJson (Obj [UserClass ''HttpResponse'', ObjectClass]
                   [(''status'', Num 201), (''json'', Str ''x'')])]"
  by (simp add: handler_unfold args_req0 instanceof_def accepted_status_200)


section \<open>The stack of a generated router\<close>

lemma stack_router_use: "stack (router_use p hs r) = stack r @ map (UseLayer p) hs"
  by (simp add: router_use_def)

lemma stack_router_verb:
  "stack (router_verb m p as r) = stack r @ [RouteLayer m p (flatten_args as)]"
  by (simp add: router_verb_def)

lemma router_stack_eq: "Router (stack r) = r"
  by (cases r) simp

lemma flatten_args_Single: "flatten_args (map Single hs @ as) = hs @ flatten_args as"
  by (induction hs) simp_all

lemma stack_register_entry:
  "stack (register_entry c r item)
     = stack r @ [RouteLayer (httpMethod item) (path item) (entry_chain c item)]"
  by (cases "validation item")
     (simp_all add: register_entry_def stack_router_verb entry_chain_def flatten_args_Single)

lemma stack_foldl_register:
  "stack (foldl (register_entry c) r items)
     = stack r @ map (\<lambda>item. RouteLayer (httpMethod item) (path item) (entry_chain c item)) items"
  by (induction items arbitrary: r) (simp_all add: stack_register_entry)

lemma stack_innerRouter:
  "stack (innerRouter c) =
     (case validation (classData c) of
        None \<Rightarrow> []
      | Some v \<Rightarrow> [UseLayer ''/'' (ValidationMiddleware (schema v) (options v))])
     @ map (UseLayer ''/'') (middlewares (classData c))
     @ map (\<lambda>item. RouteLayer (httpMethod item) (path item) (entry_chain c item)) (funcData c)
     @ map (UseLayer ''/'') (errorMiddlewares (classData c))"
  by (cases "validation (classData c)")
     (simp_all add: innerRouter_def Let_def getClassMetadata_def getMethodMetadata_def
        stack_router_use stack_foldl_register)

lemma generateRouter_wrap:
  "generateRouter c = Router [UseLayer (baseUrl (classData c)) (SubRouter (innerRouter c))]"
  by (simp add: generateRouter_def Let_def router_use_def getClassMetadata_def)

lemma filter_is_route_use: "filter is_route (map (UseLayer p) hs) = []"
  by (induction hs) simp_all

lemma filter_is_route_routes:
  "filter is_route (map (\<lambda>item. RouteLayer (f item) (g item) (h item)) items)
     = map (\<lambda>item. RouteLayer (f item) (g item) (h item)) items"
  by (induction items) simp_all

text \<open>Every route found below a mount path carries that path in front.\<close>

lemma routes_prefix:
  "(\<forall>pre. \<forall>r \<in> set (routes_handler h pre). take (length pre) (fst r) = pre)"
  "(\<forall>pre. \<forall>r \<in> set (routes_router ro pre). take (length pre) (fst r) = pre)"
  "(\<forall>pre. \<forall>r \<in> set (routes_layer l pre). take (length pre) (fst r) = pre)"
proof (induction h and ro and l)
  case (UseLayer p h)
  show ?case
  proof (intro allI ballI)
    fix pre r assume "r \<in> set (routes_layer (UseLayer p h) pre)"
    then have "r \<in> set (routes_handler h (pre @ [p]))"
      by simp
    then have "take (length (pre @ [p])) (fst r) = pre @ [p]"
      using UseLayer by blast
    then have "take (length pre) (take (length (pre @ [p])) (fst r)) = take (length pre) (pre @ [p])"
      by simp
    then show "take (length pre) (fst r) = pre"
      by (simp add: min_def)
  qed
qed auto

lemma stack_foldl_use:
  "stack (foldl (\<lambda>r item. router_use ''/'' [SubRouter (generateRouter item)] r) r cs)
     = stack r @ map (\<lambda>c. UseLayer ''/'' (SubRouter (generateRouter c))) cs"
  by (induction cs arbitrary: r) (simp_all add: stack_router_use)

lemma stack_combineControllers:
  "stack (fst (combineControllers cs opts)) =
     map (\<lambda>c. UseLayer ''/'' (SubRouter (generateRouter c))) cs
     @ (if flag_true opts skipDefaultValidationErrorMiddleware then []
        else [UseLayer ''/'' DefaultValidationErrorHandler])
     @ (if flag_true opts skipDefaultHttpErrorMiddleware then []
        else [UseLayer ''/'' DefaultHttpErrorMiddleware])"
proof (cases opts)
  case None
  then show ?thesis
    by (simp add: combineControllers_def Let_def flag_true_def stack_router_use stack_foldl_use)
next
  case (Some x)
  show ?thesis
  proof (cases "skipDefaultValidationErrorMiddleware x")
    case None
    then show ?thesis using Some
      by (cases "skipDefaultHttpErrorMiddleware x")
         (auto simp: combineControllers_def Let_def flag_true_def stack_router_use stack_foldl_use)
  next
    case (Some b)
    then show ?thesis using \<open>opts = Some x\<close>
      by (cases "skipDefaultHttpErrorMiddleware x")
         (auto simp: combineControllers_def Let_def flag_true_def stack_router_use stack_foldl_use)
  qed
qed

section \<open>Claims about the generated request handler\<close>

text \<open>
  Claim C1. For a request object and a ParamsIndex whose bound keys are among
  \<^verbatim>\<open>bodyIndex\<close>, \<^verbatim>\<open>paramsIndex\<close>, \<^verbatim>\<open>queryIndex\<close>, \<^verbatim>\<open>fileIndex\<close>, \<^verbatim>\<open>filesIndex\<close> and whose
  bound weights are pairwise distinct and none of 100, 101, 102, the handler invokes the
  controller method once, with \<open>3 + k\<close> arguments (\<open>k\<close> bound keys). The arguments are
  the values of a list of (weight, value) pairs in strictly ascending weight, and the
  pairs are exactly: the request at 100, the response at 101, the next-callback at 102,
  and for each bound key its weight with \<^verbatim>\<open>request.body\<close>, \<^verbatim>\<open>request.params\<close>,
  \<^verbatim>\<open>request.query\<close>, \<^verbatim>\<open>request.file\<close> or \<^verbatim>\<open>request.files\<close>.
\<close>

theorem handler_invokes_sorted_args:
  assumes req: "\<not> nullish req"
    and keys: "set (bound_keys pidx)
                \<subseteq> {''bodyIndex'', ''paramsIndex'', ''queryIndex'', ''fileIndex'', ''filesIndex''}"
    and dist: "distinct (bound_weights pidx)"
    and reserved: "set (bound_weights pidx) \<inter> {100, 101, 102} = {}"
  shows "\<exists>es. invocations (fst (generateRequestHandler f (Some pidx) req res next)) = [map snd es]
           \<and> length es = 3 + length (bound_keys pidx)
           \<and> sorted_wrt (<) (map fst es)
           \<and> set es = {(100, req), (101, res), (102, next)}
               \<union> {(w, v). index_of pidx ''bodyIndex'' = Some w \<and> v = get_prop req ''body''}
               \<union> {(w, v). index_of pidx ''paramsIndex'' = Some w \<and> v = get_prop req ''params''}
               \<union> {(w, v). index_of pidx ''queryIndex'' = Some w \<and> v = get_prop req ''query''}
               \<union> {(w, v). index_of pidx ''fileIndex'' = Some w \<and> v = get_prop req ''file''}
               \<union> {(w, v). index_of pidx ''filesIndex'' = Some w \<and> v = get_prop req ''files''}"
proof -
  let ?sorted = "sortedEntries req res next pidx"
  let ?coll = "collectedParams req res next pidx"
  let ?bound = "concat (map (bound_entry pidx req) (bound_keys pidx))"
  let ?es = "map weight_val ?sorted"
  let ?b = "get_prop req ''body''" and ?p = "get_prop req ''params''"
    and ?q = "get_prop req ''query''" and ?f = "get_prop req ''file''"
    and ?fs = "get_prop req ''files''"
  have args: "map snd ?es = map val ?sorted"
    by (simp add: weight_val_def comp_def)
  have inv: "invocations (fst (generateRequestHandler f (Some pidx) req res next))
               = [map val ?sorted]"
    using req by (simp add: invocations_handler generateSortedParams_def)
  have len: "length ?es = 3 + length (bound_keys pidx)"
    by (simp add: sortedEntries_sort_key collectedParams_eq length_bound_entries)
  have wts: "map weight ?coll = [100, 101, 102] @ bound_weights pidx"
    by (simp add: collectedParams_eq weights_bound_entries)
  have "distinct (map weight ?coll)"
    using dist reserved by (auto simp: wts)
  then have "distinct (map weight ?sorted)"
    by (simp add: sortedEntries_sort_key distinct_map)
  moreover have "sorted (map weight ?sorted)"
    by (simp add: sortedEntries_sort_key)
  ultimately have srt: "sorted_wrt (<) (map fst ?es)"
    by (simp add: weight_val_def comp_def strict_sorted_iff)
  have "set ?es = weight_val ` set ?coll"
    by (simp add: sortedEntries_sort_key)
  also have "\<dots> = {(100, req), (101, res), (102, next)} \<union> weight_val ` set ?bound"
    by (auto simp: collectedParams_eq weight_val_def)
  also have "weight_val ` set ?bound =
        {(w, v). index_of pidx ''bodyIndex'' = Some w \<and> v = ?b}
      \<union> {(w, v). index_of pidx ''paramsIndex'' = Some w \<and> v = ?p}
      \<union> {(w, v). index_of pidx ''queryIndex'' = Some w \<and> v = ?q}
      \<union> {(w, v). index_of pidx ''fileIndex'' = Some w \<and> v = ?f}
      \<union> {(w, v). index_of pidx ''filesIndex'' = Some w \<and> v = ?fs}"
    (is "?L = ?R")
  proof (rule set_eqI)
    fix x :: "int \<times> jsval"
    obtain w v where x: "x = (w, v)" by (cases x)
    show "x \<in> ?L \<longleftrightarrow> x \<in> ?R"
    proof
      assume "x \<in> ?L"
      then obtain k w' where k: "index_of pidx k = Some w'"
        and xk: "x = (w', facet k ?b ?p ?q ?f ?fs)"
        by (rule bound_pair_elim)
      have "k \<in> set (bound_keys pidx)"
        by (rule index_of_bound [OF k])
      with keys have "k \<in> {''bodyIndex'', ''paramsIndex'', ''queryIndex'', ''fileIndex'', ''filesIndex''}"
        by (rule subsetD)
      then have "k = ''bodyIndex'' \<or> k = ''paramsIndex'' \<or> k = ''queryIndex''
        \<or> k = ''fileIndex'' \<or> k = ''filesIndex''"
        by (simp only: insert_iff empty_iff HOL.simp_thms)
      then show "x \<in> ?R"
        using k xk by (elim disjE) (simp_all add: facet_fixed)
    next
      assume "x \<in> ?R"
      then consider "index_of pidx ''bodyIndex'' = Some w \<and> v = ?b"
        | "index_of pidx ''paramsIndex'' = Some w \<and> v = ?p"
        | "index_of pidx ''queryIndex'' = Some w \<and> v = ?q"
        | "index_of pidx ''fileIndex'' = Some w \<and> v = ?f"
        | "index_of pidx ''filesIndex'' = Some w \<and> v = ?fs"
        unfolding x by blast
      then show "x \<in> ?L"
      proof cases
        case 1
        with bound_pair_mem [of pidx "''bodyIndex''" w req] show ?thesis
          by (simp add: x facet_fixed)
      next
        case 2
        with bound_pair_mem [of pidx "''paramsIndex''" w req] show ?thesis
          by (simp add: x facet_fixed)
      next
        case 3
        with bound_pair_mem [of pidx "''queryIndex''" w req] show ?thesis
          by (simp add: x facet_fixed)
      next
        case 4
        with bound_pair_mem [of pidx "''fileIndex''" w req] show ?thesis
          by (simp add: x facet_fixed)
      next
        case 5
        with bound_pair_mem [of pidx "''filesIndex''" w req] show ?thesis
          by (simp add: x facet_fixed)
      qed
    qed
  qed
  finally have st: "set ?es = {(100, req), (101, res), (102, next)}
               \<union> {(w, v). index_of pidx ''bodyIndex'' = Some w \<and> v = ?b}
               \<union> {(w, v). index_of pidx ''paramsIndex'' = Some w \<and> v = ?p}
               \<union> {(w, v). index_of pidx ''queryIndex'' = Some w \<and> v = ?q}
               \<union> {(w, v). index_of pidx ''fileIndex'' = Some w \<and> v = ?f}
               \<union> {(w, v). index_of pidx ''filesIndex'' = Some w \<and> v = ?fs}"
    by (simp add: Un_assoc)
  show ?thesis
    using inv len srt st unfolding args[symmetric] by blast
qed

theorem handler_invokes_sorted_args_witness:
  "\<not> nullish req0
   \<and> set (bound_keys pidx0)
       \<subseteq> {''bodyIndex'', ''paramsIndex'', ''queryIndex'', ''fileIndex'', ''filesIndex''}
   \<and> distinct (bound_weights pidx0)
   \<and> set (bound_weights pidx0) \<inter> {100, 101, 102} = {}
   \<and> (\<exists>es. invocations (fst (generateRequestHandler (\<lambda>args. Return (Arr args)) (Some pidx0)
                              req0 (Fn ''res'') (Fn ''next''))) = [map snd es]
           \<and> length es = 3 + length (bound_keys pidx0)
           \<and> sorted_wrt (<) (map fst es)
           \<and> set es = {(100, req0), (101, Fn ''res''), (102, Fn ''next'')}
               \<union> {(w, v). index_of pidx0 ''bodyIndex'' = Some w \<and> v = get_prop req0 ''body''}
               \<union> {(w, v). index_of pidx0 ''paramsIndex'' = Some w \<and> v = get_prop req0 ''params''}
               \<union> {(w, v). index_of pidx0 ''queryIndex'' = Some w \<and> v = get_prop req0 ''query''}
               \<union> {(w, v). index_of pidx0 ''fileIndex'' = Some w \<and> v = get_prop req0 ''file''}
               \<union> {(w, v). index_of pidx0 ''filesIndex'' = Some w \<and> v = get_prop req0 ''files''})"
proof -
  have h1: "\<not> nullish req0"
    by (simp add: nullish_def req0_def)
  have h2: "set (bound_keys pidx0)
       \<subseteq> {''bodyIndex'', ''paramsIndex'', ''queryIndex'', ''fileIndex'', ''filesIndex''}"
    by (simp add: bound_keys_def object_keys_def index_of_def pidx0_def)
  have w: "bound_weights pidx0 = [0, 1]"
    by (simp add: bound_weights_def object_keys_def index_of_def pidx0_def List.map_filter_simps)
  have h3: "distinct (bound_weights pidx0)"
    by (simp add: w)
  have h4: "set (bound_weights pidx0) \<inter> {100, 101, 102} = {}"
    by (simp add: w)
  from h1 h2 h3 h4 handler_invokes_sorted_args [OF h1 h2 h3 h4] show ?thesis
    by (intro conjI)
qed

text \<open>The argument list of that example: body, route parameters, request, response, next.\<close>

lemma example_sorted_args:
  "generateSortedParams req0 (Fn ''res'') (Fn ''next'') (Some pidx0)
     = Return [plain_object [(''name'', Str ''n'')], plain_object [(''id'', Str ''7'')],
               req0, Fn ''res'', Fn ''next'']"
  by (simp add: generateSortedParams_def nullish_def req0_def sortedEntries_def
      collectedParams_def bound_keys_def object_keys_def index_of_def pidx0_def
      push_param_def facet_def array_sort_def)




text \<open>
  Claim C3. When the argument extraction or the controller method throws, the handler
  calls the next-callback once, with the thrown value, makes no call that writes the
  response, and itself returns normally (with \<^verbatim>\<open>undefined\<close>).
\<close>

theorem handler_forwards_thrown_error:
  assumes "generateSortedParams req res next pidx = Throw err
           \<or> (\<exists>args. generateSortedParams req res next pidx = Return args \<and> f args = Throw err)"
  shows "next_calls (fst (generateRequestHandler f pidx req res next)) = [err]
         \<and> response_writes (fst (generateRequestHandler f pidx req res next)) = []
         \<and> snd (generateRequestHandler f pidx req res next) = Return Undefined"
  using assms by (auto simp: handler_unfold)

theorem handler_forwards_thrown_error_witness:
  "next_calls (fst (generateRequestHandler (\<lambda>args. Throw (Error ''boom'')) (Some [])
                      req0 (Fn ''res'') (Fn ''next''))) = [Error ''boom'']
   \<and> response_writes (fst (generateRequestHandler (\<lambda>args. Throw (Error ''boom'')) (Some [])
                      req0 (Fn ''res'') (Fn ''next''))) = []
   \<and> snd (generateRequestHandler (\<lambda>args. Throw (Error ''boom'')) (Some [])
                      req0 (Fn ''res'') (Fn ''next'')) = Return Undefined
   \<and> next_calls (fst (generateRequestHandler (\<lambda>args. Return Null) None
                      req0 (Fn ''res'') (Fn ''next'')))
       = [TypeError ''Cannot convert undefined or null to object'']"
proof -
  have a: "generateSortedParams req0 (Fn ''res'') (Fn ''next'') (Some []) = Throw (Error ''boom'')
           \<or> (\<exists>args. generateSortedParams req0 (Fn ''res'') (Fn ''next'') (Some []) = Return args
                \<and> (\<lambda>args. Throw (Error ''boom'')) args = Throw (Error ''boom''))"
    by (simp add: args_req0)
  have b: "generateSortedParams req0 (Fn ''res'') (Fn ''next'') None
             = Throw (TypeError ''Cannot convert undefined or null to object'')
           \<or> (\<exists>args. generateSortedParams req0 (Fn ''res'') (Fn ''next'') None = Return args
                \<and> (\<lambda>args. Return Null) args
                    = Throw (TypeError ''Cannot convert undefined or null to object''))"
    by (simp add: generateSortedParams_def nullish_def req0_def)
  show ?thesis
    using handler_forwards_thrown_error [OF a] handler_forwards_thrown_error [OF b] by simp
qed

text \<open>
  Claim C7. When the controller method returns a promise that is not an HttpResponse
  instance, the handler does not wait for it: its whole effect is the invocation,
  \<^verbatim>\<open>res.status(200)\<close> and \<^verbatim>\<open>.json\<close> of the promise itself, and it returns. Whether and how
  the promise settles plays no part: the next-callback is not called, so a later
  rejection is not forwarded by the handler.
\<close>

theorem handler_does_not_await:
  assumes "generateSortedParams req res next pidx = Return args"
    and "f args = Return v"
    and "instanceof v PromiseClass"
    and "\<not> instanceof v HttpResponseClass"
  shows "generateRequestHandler f pidx req res next
           = ([Invoke args, ResStatus (Num 200), ResJson v], Return res)
         \<and> next_calls (fst (generateRequestHandler f pidx req res next)) = []"
  using assms by (simp add: handler_unfold accepted_status_200)

theorem handler_does_not_await_witness:
  "generateRequestHandler (\<lambda>args. Return (PromiseObj (Rejects (Error ''late''))))
       (Some []) req0 (Fn ''res'') (Fn ''next'')
     = ([Invoke [req0, Fn ''res'', Fn ''next''], ResStatus (Num 200),
         ResJson (PromiseObj (Rejects (Error ''late'')))], Return (Fn ''res''))
   \<and> next_calls (fst (generateRequestHandler
                        (\<lambda>args. Return (PromiseObj (Rejects (Error ''late''))))
                        (Some []) req0 (Fn ''res'') (Fn ''next''))) = []"
proof -
  have p: "instanceof (PromiseObj (Rejects (Error ''late''))) PromiseClass"
    by (simp add: instanceof_def)
  have h: "\<not> instanceof (PromiseObj (Rejects (Error ''late''))) HttpResponseClass"
    by (simp add: instanceof_def)
  have r: "(\<lambda>args. Return (PromiseObj (Rejects (Error ''late'')))) [req0, Fn ''res'', Fn ''next'']
             = Return (PromiseObj (Rejects (Error ''late'')))"
    by simp
  show ?thesis
    using handler_does_not_await [OF args_req0 r p h] by simp
qed

text \<open>
  Claim C8. A plain object that has \<^verbatim>\<open>status\<close> and \<^verbatim>\<open>json\<close> properties but is not an
  HttpResponse instance is a bare value: the handler calls \<^verbatim>\<open>res.status(200)\<close> and passes
  the whole object to \<^verbatim>\<open>.json\<close>.
\<close>

theorem handler_detects_by_instance:
  assumes "generateSortedParams req res next pidx = Return args"
    and "f args = Return (plain_object props)"
    and "map_of props ''status'' = Some st"
    and "map_of props ''json'' = Some js"
  shows "fst (generateRequestHandler f pidx req res next)
           = [Invoke args, ResStatus (Num 200), ResJson (plain_object props)]"
  using assms by (simp add: handler_unfold not_instanceof_plain accepted_status_200)

theorem handler_detects_by_instance_witness:
  "fst (generateRequestHandler
          (\<lambda>args. Return (plain_object [(''status'', Num 404), (''json'', Str ''gone'')]))
          (Some []) req0 (Fn ''res'') (Fn ''next''))
     = [Invoke [req0, Fn ''res'', Fn ''next''], ResStatus (Num 200),
        ResJson (plain_object [(''status'', Num 404), (''json'', Str ''gone'')])]"
proof -
  have r: "(\<lambda>args. Return (plain_object [(''status'', Num 404), (''json'', Str ''gone'')]))
             [req0, Fn ''res'', Fn ''next'']
           = Return (plain_object [(''status'', Num 404), (''json'', Str ''gone'')])"
    by simp
  have s: "map_of [(''status'', Num 404), (''json'', Str ''gone'')] ''status'' = Some (Num 404)"
    by simp
  have j: "map_of [(''status'', Num 404), (''json'', Str ''gone'')] ''json'' = Some (Str ''gone'')"
    by simp
  show ?thesis
    using handler_detects_by_instance [OF args_req0 r s j] by simp
qed

text \<open>
  Claim C10. For a request object, the argument list is the list of values of a list of
  entries that is in ascending weight and holds, for every weight, the entries of that
  weight exactly as they were inserted and in the order they were inserted. The entries
  inserted are the request at 100, the response at 101, the next-callback at 102, and then,
  for each key of the ParamsIndex in enumeration order whose weight is not
  \<^verbatim>\<open>undefined\<close>, that weight with the request facet the key names (\<^verbatim>\<open>null\<close> for any
  other key). So an entry whose weight equals that of an earlier one, reserved or bound,
  comes after it, and the argument list is a function of the inputs.
\<close>

theorem sorted_params_stable:
  assumes "\<not> nullish req"
  shows "\<exists>es. generateSortedParams req res next (Some pidx) = Return (map val es)
           \<and> sorted (map weight es)
           \<and> (\<forall>w. filter (\<lambda>e. weight e = w) es
                  = filter (\<lambda>e. weight e = w)
                      ([\<lparr>weight = 100, val = req, key = None\<rparr>,
                        \<lparr>weight = 101, val = res, key = None\<rparr>,
                        \<lparr>weight = 102, val = next, key = None\<rparr>]
                       @ concat (map (\<lambda>k. case index_of pidx k of
                                        None \<Rightarrow> []
                                      | Some b \<Rightarrow>
                                          [\<lparr>weight = b,
                                            val = (if k = ''bodyIndex'' then get_prop req ''body''
                                                   else if k = ''paramsIndex'' then get_prop req ''params''
                                                   else if k = ''queryIndex'' then get_prop req ''query''
                                                   else if k = ''fileIndex'' then get_prop req ''file''
                                                   else if k = ''filesIndex'' then get_prop req ''files''
                                                   else Null),
                                            key = Some k\<rparr>])
                                 (map fst pidx))))"
proof -
  let ?ins = "[\<lparr>weight = 100, val = req, key = None\<rparr>,
               \<lparr>weight = 101, val = res, key = None\<rparr>,
               \<lparr>weight = 102, val = next, key = None\<rparr>]
              @ concat (map (\<lambda>k. case index_of pidx k of
                               None \<Rightarrow> []
                             | Some b \<Rightarrow>
                                 [\<lparr>weight = b,
                                   val = (if k = ''bodyIndex'' then get_prop req ''body''
                                          else if k = ''paramsIndex'' then get_prop req ''params''
                                          else if k = ''queryIndex'' then get_prop req ''query''
                                          else if k = ''fileIndex'' then get_prop req ''file''
                                          else if k = ''filesIndex'' then get_prop req ''files''
                                          else Null),
                                   key = Some k\<rparr>])
                        (map fst pidx))"
  let ?es = "sortedEntries req res next pidx"
  have ins: "collectedParams req res next pidx = ?ins"
    by (simp only: collectedParams_inserted)
  have 1: "generateSortedParams req res next (Some pidx) = Return (map val ?es)"
    using assms by (simp add: generateSortedParams_def)
  have 2: "sorted (map weight ?es)"
    by (simp only: sortedEntries_sort_key sorted_sort_key)
  have 3: "\<forall>w. filter (\<lambda>e. weight e = w) ?es = filter (\<lambda>e. weight e = w) ?ins"
    by (simp only: sortedEntries_sort_key sort_key_stable ins simp_thms)
  from 1 2 3 show ?thesis by blast
qed

text \<open>
  A body bound at weight 100 and a query bound at weight 101 each follow the reserved
  entry of the same weight: the statement above leaves no other argument list.
\<close>

theorem sorted_params_stable_witness:
  "\<not> nullish req0
   \<and> generateSortedParams req0 (Fn ''res'') (Fn ''next'') (Some pidx_ties)
       = Return [req0, plain_object [(''name'', Str ''n'')], Fn ''res'', plain_object [],
                 Fn ''next'']"
proof -
  let ?ins = "[\<lparr>weight = 100, val = req0, key = None\<rparr>,
               \<lparr>weight = 101, val = Fn ''res'', key = None\<rparr>,
               \<lparr>weight = 102, val = Fn ''next'', key = None\<rparr>,
               \<lparr>weight = 101, val = plain_object [], key = Some ''queryIndex''\<rparr>,
               \<lparr>weight = 100, val = plain_object [(''name'', Str ''n'')],
                key = Some ''bodyIndex''\<rparr>]"
  have h: "\<not> nullish req0"
    by (simp add: nullish_def req0_def)
  from sorted_params_stable [OF h, of "Fn ''res''" "Fn ''next''" pidx_ties]
  obtain es where r: "generateSortedParams req0 (Fn ''res'') (Fn ''next'') (Some pidx_ties)
                        = Return (map val es)"
    and s: "sorted (map weight es)"
    and f: "\<And>w. filter (\<lambda>e. weight e = w) es = filter (\<lambda>e. weight e = w) ?ins"
    by (auto simp: pidx_ties_def index_of_def req0_def)
  have "sort_key weight ?ins = es"
    by (rule stable_sorted_is_sort_key [OF s f])
  then have "es = [\<lparr>weight = 100, val = req0, key = None\<rparr>,
               \<lparr>weight = 100, val = plain_object [(''name'', Str ''n'')],
                key = Some ''bodyIndex''\<rparr>,
               \<lparr>weight = 101, val = Fn ''res'', key = None\<rparr>,
               \<lparr>weight = 101, val = plain_object [], key = Some ''queryIndex''\<rparr>,
               \<lparr>weight = 102, val = Fn ''next'', key = None\<rparr>]"
    by simp
  with r h show ?thesis by simp
qed


section \<open>Claims about the generated routers\<close>

text \<open>
  Claim C5. The router of a controller with \<open>n\<close> MethodMetadata entries has exactly \<open>n\<close>
  routes, one per entry and in the order of the entries, each on the verb and path of its
  entry, and each with the chain: the validation middleware when the entry declares
  validation, the entry's middlewares, the generated request handler for the member the
  entry names, the entry's error middlewares.
\<close>

theorem generateRouter_routes:
  "generateRouter c = Router [UseLayer (baseUrl (classData c)) (SubRouter (innerRouter c))]
   \<and> filter is_route (stack (innerRouter c))
       = map (\<lambda>item. RouteLayer (httpMethod item) (path item)
                ((case validation item of
                    None \<Rightarrow> []
                  | Some v \<Rightarrow> [ValidationMiddleware (schema v) (options v)])
                 @ middlewares item
                 @ [RequestHandler
                      (generateRequestHandler (members c (methodName item))
                         (Some (paramsMetadata item)))]
                 @ errorMiddlewares item))
           (funcData c)
   \<and> length (filter is_route (stack (innerRouter c))) = length (funcData c)"
proof -
  have r: "filter is_route (stack (innerRouter c))
             = map (\<lambda>item. RouteLayer (httpMethod item) (path item) (entry_chain c item))
                 (funcData c)"
    by (cases "validation (classData c)")
       (simp_all add: stack_innerRouter filter_is_route_use filter_is_route_routes)
  then have l: "length (filter is_route (stack (innerRouter c))) = length (funcData c)"
    by simp
  from r have r': "filter is_route (stack (innerRouter c))
       = map (\<lambda>item. RouteLayer (httpMethod item) (path item)
                ((case validation item of
                    None \<Rightarrow> []
                  | Some v \<Rightarrow> [ValidationMiddleware (schema v) (options v)])
                 @ middlewares item
                 @ [RequestHandler
                      (generateRequestHandler (members c (methodName item))
                         (Some (paramsMetadata item)))]
                 @ errorMiddlewares item))
           (funcData c)"
    by (simp add: entry_chain_def)
  from generateRouter_wrap r' l show ?thesis by (intro conjI)
qed

theorem generateRouter_routes_witness:
  "filter is_route (stack (innerRouter users))
     = [RouteLayer Get ''/''
          [UserFn ''auth'',
           RequestHandler (generateRequestHandler (members users ''list'') (Some [])),
           UserFn ''onError''],
        RouteLayer Post ''/new''
          [ValidationMiddleware (Str ''UserSchema'') Undefined,
           RequestHandler (generateRequestHandler (members users ''create'')
                             (Some [(''bodyIndex'', Some 0)]))]]"
  using generateRouter_routes [of users]
  by (simp add: users_def list_item_def create_item_def)

text \<open>
  Claim C6. The inner router of a controller holds, in this order: the class-level
  validation middleware when one is declared, the class-level middlewares, the routes,
  the class-level error middlewares. The router returned is a new router whose only layer
  mounts the inner router at the class's baseUrl, so every route found in it lies below
  that mount path, and the route of every entry lies directly below it.
\<close>

theorem generateRouter_layout:
  "generateRouter c =
     Router [UseLayer (baseUrl (classData c)) (SubRouter (Router (
       (case validation (classData c) of
          None \<Rightarrow> []
        | Some v \<Rightarrow> [UseLayer ''/'' (ValidationMiddleware (schema v) (options v))])
       @ map (UseLayer ''/'') (middlewares (classData c))
       @ map (\<lambda>item. RouteLayer (httpMethod item) (path item) (entry_chain c item)) (funcData c)
       @ map (UseLayer ''/'') (errorMiddlewares (classData c)))))]
   \<and> list_all (\<lambda>r. take 1 (fst r) = [baseUrl (classData c)]) (routes_router (generateRouter c) [])
   \<and> list_all (\<lambda>item. ([baseUrl (classData c)], httpMethod item, path item)
                        \<in> set (routes_router (generateRouter c) []))
       (funcData c)"
proof -
  have 1: "generateRouter c =
     Router [UseLayer (baseUrl (classData c)) (SubRouter (Router (
       (case validation (classData c) of
          None \<Rightarrow> []
        | Some v \<Rightarrow> [UseLayer ''/'' (ValidationMiddleware (schema v) (options v))])
       @ map (UseLayer ''/'') (middlewares (classData c))
       @ map (\<lambda>item. RouteLayer (httpMethod item) (path item) (entry_chain c item)) (funcData c)
       @ map (UseLayer ''/'') (errorMiddlewares (classData c)))))]"
    by (simp only: generateRouter_wrap stack_innerRouter [symmetric] router_stack_eq)
  have rr: "routes_router (generateRouter c) []
              = routes_router (innerRouter c) [baseUrl (classData c)]"
    by (simp add: generateRouter_wrap)
  have 2: "list_all (\<lambda>r. take 1 (fst r) = [baseUrl (classData c)])
             (routes_router (generateRouter c) [])"
    unfolding rr list_all_iff
    using routes_prefix(2) [of "innerRouter c"] by fastforce
  have "RouteLayer (httpMethod item) (path item) (entry_chain c item)
          \<in> set (stack (innerRouter c))"
    if "item \<in> set (funcData c)" for item
    using that by (simp add: stack_innerRouter)
  then have "([baseUrl (classData c)], httpMethod item, path item)
               \<in> set (routes_router (innerRouter c) [baseUrl (classData c)])"
    if "item \<in> set (funcData c)" for item
    using that by (cases "innerRouter c") force
  then have 3: "list_all (\<lambda>item. ([baseUrl (classData c)], httpMethod item, path item)
                        \<in> set (routes_router (generateRouter c) [])) (funcData c)"
    unfolding rr list_all_iff by blast
  from 1 2 3 show ?thesis by (intro conjI)
qed

theorem generateRouter_layout_witness:
  "generateRouter users =
     Router [UseLayer ''/users'' (SubRouter (Router
       [UseLayer ''/'' (ValidationMiddleware (Str ''ClassSchema'') Undefined),
        UseLayer ''/'' (UserFn ''log''),
        RouteLayer Get ''/'' (entry_chain users list_item),
        RouteLayer Post ''/new'' (entry_chain users create_item),
        UseLayer ''/'' (UserFn ''classError'')]))]
   \<and> routes_router (generateRouter users) [] = [([''/users''], Get, ''/''), ([''/users''], Post, ''/new'')]"
proof -
  have a: "generateRouter users =
     Router [UseLayer ''/users'' (SubRouter (Router
       [UseLayer ''/'' (ValidationMiddleware (Str ''ClassSchema'') Undefined),
        UseLayer ''/'' (UserFn ''log''),
        RouteLayer Get ''/'' (entry_chain users list_item),
        RouteLayer Post ''/new'' (entry_chain users create_item),
        UseLayer ''/'' (UserFn ''classError'')]))]"
    using generateRouter_layout [of users]
    by (simp add: users_def list_item_def create_item_def)
  show ?thesis
    by (simp add: a)
qed

text \<open>
  Claim C4. The combined router holds one layer per controller, in input order, each
  mounting that controller's generated router; then the default validation-error handler
  unless \<^verbatim>\<open>skipDefaultValidationErrorMiddleware\<close> is set to true; then the default
  HTTP-error handler unless \<^verbatim>\<open>skipDefaultHttpErrorMiddleware\<close> is set to true. With only
  \<^verbatim>\<open>skipDefaultHttpErrorMiddleware: true\<close> the validation default is the last layer and the
  HTTP default is absent; with no options both follow the controllers.
\<close>

theorem combine_mounts_then_defaults:
  "stack (fst (combineControllers cs opts)) =
     map (\<lambda>c. UseLayer ''/'' (SubRouter (generateRouter c))) cs
     @ (if flag_true opts skipDefaultValidationErrorMiddleware then []
        else [UseLayer ''/'' DefaultValidationErrorHandler])
     @ (if flag_true opts skipDefaultHttpErrorMiddleware then []
        else [UseLayer ''/'' DefaultHttpErrorMiddleware])
   \<and> stack (fst (combineControllers cs
                   (Some \<lparr>skipDefaultHttpErrorMiddleware = Some True,
                          skipDefaultValidationErrorMiddleware = None\<rparr>))) =
       map (\<lambda>c. UseLayer ''/'' (SubRouter (generateRouter c))) cs
       @ [UseLayer ''/'' DefaultValidationErrorHandler]
   \<and> stack (fst (combineControllers cs None)) =
       map (\<lambda>c. UseLayer ''/'' (SubRouter (generateRouter c))) cs
       @ [UseLayer ''/'' DefaultValidationErrorHandler, UseLayer ''/'' DefaultHttpErrorMiddleware]"
proof -
  have 1: "stack (fst (combineControllers cs opts)) =
     map (\<lambda>c. UseLayer ''/'' (SubRouter (generateRouter c))) cs
     @ (if flag_true opts skipDefaultValidationErrorMiddleware then []
        else [UseLayer ''/'' DefaultValidationErrorHandler])
     @ (if flag_true opts skipDefaultHttpErrorMiddleware then []
        else [UseLayer ''/'' DefaultHttpErrorMiddleware])"
    by (rule stack_combineControllers)
  have 2: "stack (fst (combineControllers cs
                   (Some \<lparr>skipDefaultHttpErrorMiddleware = Some True,
                          skipDefaultValidationErrorMiddleware = None\<rparr>))) =
       map (\<lambda>c. UseLayer ''/'' (SubRouter (generateRouter c))) cs
       @ [UseLayer ''/'' DefaultValidationErrorHandler]"
    by (simp add: stack_combineControllers flag_true_def)
  have 3: "stack (fst (combineControllers cs None)) =
       map (\<lambda>c. UseLayer ''/'' (SubRouter (generateRouter c))) cs
       @ [UseLayer ''/'' DefaultValidationErrorHandler, UseLayer ''/'' DefaultHttpErrorMiddleware]"
    by (simp add: stack_combineControllers flag_true_def)
  from 1 2 3 show ?thesis by (intro conjI)
qed

theorem combine_mounts_then_defaults_witness:
  "stack (fst (combineControllers [users, users]
                 (Some \<lparr>skipDefaultHttpErrorMiddleware = Some False,
                        skipDefaultValidationErrorMiddleware = Some True\<rparr>)))
     = [UseLayer ''/'' (SubRouter (generateRouter users)),
        UseLayer ''/'' (SubRouter (generateRouter users)),
        UseLayer ''/'' DefaultHttpErrorMiddleware]"
  using combine_mounts_then_defaults [of "[users, users]"
      "Some \<lparr>skipDefaultHttpErrorMiddleware = Some False,
             skipDefaultValidationErrorMiddleware = Some True\<rparr>"]
  by (simp add: flag_true_def)

text \<open>
  Claim C9. For an empty list of controllers, and options that set neither suppression
  flag to true, the result is a router whose only layers are the default validation-error
  handler followed by the default HTTP-error handler; both console lines are written.
\<close>

theorem combine_no_controllers:
  assumes "\<not> flag_true opts skipDefaultValidationErrorMiddleware"
    and "\<not> flag_true opts skipDefaultHttpErrorMiddleware"
  shows "combineControllers [] opts =
           (Router [UseLayer ''/'' DefaultValidationErrorHandler,
                    UseLayer ''/'' DefaultHttpErrorMiddleware],
            [''Setting default validation error middleware'',
             ''Setting default http error middleware''])"
proof (cases opts)
  case None
  then show ?thesis
    by (simp add: combineControllers_def router_use_def)
next
  case (Some x)
  with assms have "skipDefaultValidationErrorMiddleware x \<noteq> Some True"
    and "skipDefaultHttpErrorMiddleware x \<noteq> Some True"
    by (simp_all add: flag_true_def)
  then have "\<not> truthy (skipDefaultValidationErrorMiddleware x)"
    and "\<not> truthy (skipDefaultHttpErrorMiddleware x)"
    by (cases "skipDefaultValidationErrorMiddleware x"; cases "skipDefaultHttpErrorMiddleware x";
        simp)+
  with Some show ?thesis
    by (simp add: combineControllers_def router_use_def)
qed

theorem combine_no_controllers_witness:
  "combineControllers [] None =
     (Router [UseLayer ''/'' DefaultValidationErrorHandler,
              UseLayer ''/'' DefaultHttpErrorMiddleware],
      [''Setting default validation error middleware'',
       ''Setting default http error middleware''])
   \<and> combineControllers []
        (Some \<lparr>skipDefaultHttpErrorMiddleware = Some False,
               skipDefaultValidationErrorMiddleware = None\<rparr>) =
     (Router [UseLayer ''/'' DefaultValidationErrorHandler,
              UseLayer ''/'' DefaultHttpErrorMiddleware],
      [''Setting default validation error middleware'',
       ''Setting default http error middleware''])"
proof -
  have a: "\<not> flag_true None skipDefaultValidationErrorMiddleware"
    and b: "\<not> flag_true None skipDefaultHttpErrorMiddleware"
    by (simp_all add: flag_true_def)
  have c: "\<not> flag_true (Some \<lparr>skipDefaultHttpErrorMiddleware = Some False,
               skipDefaultValidationErrorMiddleware = None\<rparr>) skipDefaultValidationErrorMiddleware"
    and d: "\<not> flag_true (Some \<lparr>skipDefaultHttpErrorMiddleware = Some False,
               skipDefaultValidationErrorMiddleware = None\<rparr>) skipDefaultHttpErrorMiddleware"
    by (simp_all add: flag_true_def)
  from combine_no_controllers [OF a b] combine_no_controllers [OF c d] show ?thesis
    by (intro conjI)
qed

end
